theory Spec2Isabelle
  imports Complex_Main "HOL-Library.Sublist" "HOL-Library.Log_Nat"
begin

section \<open>Tables\<close>

text \<open>
  The dashboard script \<^verbatim>\<open>app.py\<close> works on one pandas DataFrame. A frame is modelled
  as its header (the column names, in file order) and its rows. A frame of pandas is
  rectangular: each row holds one cell per column, so the cell \<open>r ! i\<close> of a row \<open>r\<close> exists
  for every position \<open>i\<close> of the header. A cell is a string, a number, a timestamp, or
  the missing value (NaN) that pandas puts where the file has an empty field. A number of
  a cell is a rational: every finite binary64 number is one. The script does no
  arithmetic on cells; where it computes with numbers (the three figures and the cards)
  the values are \<open>float64\<close> values, defined with the figures. Infinities in the file and
  the sign of zero are not represented. Strings are byte sequences (UTF-8).
\<close>

datatype cell = Str string | Num rat | Timestamp int | Missing

datatype error =
  IOError | KeyError string | ValueError | TypeError | DuplicateElementKey string

record frame =
  columns :: "string list"
  rows :: "cell list list"

fun column_index :: "string \<Rightarrow> string list \<Rightarrow> nat option" where
  "column_index c [] = None"
| "column_index c (x # xs) = (if x = c then Some 0 else map_option Suc (column_index c xs))"

text \<open>\<^verbatim>\<open>df[c]\<close>: the column named \<open>c\<close> as a series, KeyError when there is none.\<close>

definition getitem :: "frame \<Rightarrow> string \<Rightarrow> error + cell list" where
  "getitem df c =
     (case column_index c (columns df) of
        None \<Rightarrow> Inl (KeyError c)
      | Some i \<Rightarrow> Inr (map (\<lambda>r. r ! i) (rows df)))"

text \<open>
  \<^verbatim>\<open>df[c] = vals\<close>: replaces the column named \<open>c\<close>, or appends a new column when the
  frame has none of that name. ValueError when the series does not have one value per
  row.
\<close>

definition setitem :: "frame \<Rightarrow> string \<Rightarrow> cell list \<Rightarrow> error + frame" where
  "setitem df c vals =
     (if length vals \<noteq> length (rows df) then Inl ValueError
      else
        (case column_index c (columns df) of
           Some i \<Rightarrow> Inr (df\<lparr>rows := map (\<lambda>(r, v). r[i := v]) (zip (rows df) vals)\<rparr>)
         | None \<Rightarrow> Inr (df\<lparr>columns := columns df @ [c],
                          rows := map (\<lambda>(r, v). r @ [v]) (zip (rows df) vals)\<rparr>)))"

text \<open>\<^verbatim>\<open>df.empty\<close>: one of the two axes has length 0.\<close>

definition empty_df :: "frame \<Rightarrow> bool" where
  "empty_df df \<longleftrightarrow> rows df = [] \<or> columns df = []"

text \<open>
  Python's \<^verbatim>\<open>==\<close> on two cells: NaN is equal to nothing, itself included; any other
  cell is equal to itself only.
\<close>

definition py_eq :: "cell \<Rightarrow> cell \<Rightarrow> bool" where
  "py_eq a b \<longleftrightarrow> a = b \<and> a \<noteq> Missing"

text \<open>
  \<^verbatim>\<open>series == v\<close>, elementwise, and \<^verbatim>\<open>df[mask]\<close>, the rows whose mask entry is True;
  an error when the mask does not have one entry per row.
\<close>

definition series_eq :: "cell list \<Rightarrow> cell \<Rightarrow> bool list" where
  "series_eq col v = map (\<lambda>c. py_eq c v) col"

definition select_rows :: "frame \<Rightarrow> bool list \<Rightarrow> error + frame" where
  "select_rows df msk =
     (if length msk \<noteq> length (rows df) then Inl ValueError
      else Inr (df\<lparr>rows := map fst (filter snd (zip (rows df) msk))\<rparr>))"

section \<open>Loading (\<^verbatim>\<open>load_data\<close>, lines 62 to 66)\<close>

text \<open>
  \<^verbatim>\<open>pd.read_csv\<close> and the timestamp parser of \<^verbatim>\<open>pd.to_datetime\<close> belong to pandas.
  The outcome of reading the file (an exception or a frame) and the parser (\<open>None\<close> where
  it raises) are parameters of the model.
\<close>

fun to_datetime :: "(cell \<Rightarrow> int option) \<Rightarrow> cell list \<Rightarrow> error + cell list" where
  "to_datetime p [] = Inr []"
| "to_datetime p (v # vs) =
     (case p v of
        None \<Rightarrow> Inl ValueError
      | Some t \<Rightarrow>
          (case to_datetime p vs of
             Inl e \<Rightarrow> Inl e
           | Inr ts \<Rightarrow> Inr (Timestamp t # ts)))"

text \<open>The slice \<^verbatim>\<open>[::10]\<close>: the first element, then the first of what follows ten later.\<close>

fun step10 :: "'a list \<Rightarrow> 'a list" where
  "step10 [] = []"
| "step10 (x # xs) = x # step10 (drop 9 xs)"

definition iloc_step10 :: "frame \<Rightarrow> frame" where
  "iloc_step10 df = df\<lparr>rows := step10 (rows df)\<rparr>"

definition load_data :: "error + frame \<Rightarrow> (cell \<Rightarrow> int option) \<Rightarrow> error + frame" where
  "load_data read_csv p =
     (case read_csv of
        Inl e \<Rightarrow> Inl e
      | Inr df \<Rightarrow>
          (case getitem df ''DateTime'' of
             Inl e \<Rightarrow> Inl e
           | Inr col \<Rightarrow>
               (case to_datetime p col of
                  Inl e \<Rightarrow> Inl e
                | Inr ts \<Rightarrow>
                    (case setitem df ''DateTime'' ts of
                       Inl e \<Rightarrow> Inl e
                     | Inr df' \<Rightarrow> Inr (iloc_step10 df')))))"

section \<open>The stage buttons (line 111)\<close>

text \<open>
  \<^verbatim>\<open>Series.unique()\<close> returns the values of a series in order of appearance: it walks
  the series and keeps a value it has not seen yet.
\<close>

definition unique :: "'a list \<Rightarrow> 'a list" where
  "unique xs = foldl (\<lambda>seen x. if x \<in> set seen then seen else seen @ [x]) [] xs"

definition location_list :: "frame \<Rightarrow> error + cell list" where
  "location_list t =
     (case getitem t ''Location_Name'' of
        Inl e \<Rightarrow> Inl e
      | Inr col \<Rightarrow> Inr (Str ''All Locations'' # unique col))"

text \<open>
  Lines 112 to 117, for a run in which no button is pressed: one call of \<^verbatim>\<open>st.button\<close>
  per entry, with the entry as label and as key, of type primary for the entry equal to
  the selection. Streamlit keeps the keys of the elements of the run and raises
  StreamlitDuplicateElementKey at the second element with a key; a label must be a
  string. \<open>keys\<close> are the keys used so far.
\<close>

fun buttons :: "cell list \<Rightarrow> cell \<Rightarrow> string list \<Rightarrow> error + (string \<times> string) list" where
  "buttons [] sel keys = Inr []"
| "buttons (Str s # locs) sel keys =
     (if s \<in> set keys then Inl (DuplicateElementKey s)
      else
        (case buttons locs sel (s # keys) of
           Inl e \<Rightarrow> Inl e
         | Inr bs \<Rightarrow> Inr ((s, if py_eq (Str s) sel then ''primary'' else ''secondary'') # bs)))"
| "buttons (loc # locs) sel keys = Inl TypeError"

section \<open>Filtering (lines 120 to 122)\<close>

text \<open>
  The frame bound to \<^verbatim>\<open>df_filtered\<close> after line 122, as a function of the loaded frame
  and the selection. \<^verbatim>\<open>df.copy()\<close> has the contents of \<^verbatim>\<open>df\<close>.
\<close>

definition df_filtered :: "frame \<Rightarrow> cell \<Rightarrow> error + frame" where
  "df_filtered t sel =
     (if sel \<noteq> Str ''All Locations'' then
        (case getitem t ''Location_Name'' of
           Inl e \<Rightarrow> Inl e
         | Inr col \<Rightarrow> select_rows t (series_eq col sel))
      else Inr t)"

text \<open>
  The same lines on a store of frame objects, to follow which object each step builds and
  which it touches. An address is a position in the list of the objects allocated so
  far, and a variable holds the address of an object of the store. \<^verbatim>\<open>df.copy()\<close> and
  \<^verbatim>\<open>df_filtered[mask]\<close> each allocate a new object. The step returns the new state and
  the address bound to \<^verbatim>\<open>df_filtered\<close>.
\<close>

record session =
  heap :: "frame list"
  df_addr :: nat
  selected_location :: cell

definition alloc :: "frame list \<Rightarrow> frame \<Rightarrow> frame list \<times> nat" where
  "alloc h f = (h @ [f], length h)"

definition filter_step :: "session \<Rightarrow> error + session \<times> nat" where
  "filter_step s =
     (case alloc (heap s) (heap s ! df_addr s) of
        (h1, a1) \<Rightarrow>
          if selected_location s \<noteq> Str ''All Locations'' then
            (case getitem (h1 ! a1) ''Location_Name'' of
               Inl e \<Rightarrow> Inl e
             | Inr col \<Rightarrow>
                 (case select_rows (h1 ! a1) (series_eq col (selected_location s)) of
                    Inl e \<Rightarrow> Inl e
                  | Inr f \<Rightarrow>
                      (case alloc h1 f of
                         (h2, a2) \<Rightarrow> Inr (s\<lparr>heap := h2\<rparr>, a2))))
          else Inr (s\<lparr>heap := h1\<rparr>, a1))"

section \<open>Floating-point values\<close>

text \<open>
  The values the script computes with: a finite number, an infinity, or NaN. The finite
  values of Python and numpy are the binary64 numbers, \<open>m * 2 ^ e\<close> with \<open>\<bar>m\<bar> < 2 ^ 53\<close>
  and \<open>- 1074 \<le> e \<le> 971\<close>; the largest is \<open>max_double\<close>.
\<close>

datatype float64 = Fin rat | PosInf | NegInf | NaN


definition max_double :: rat where
  "max_double = 2 ^ 1024 - 2 ^ 971"

text \<open>
  \<open>ilog2 x\<close> is the exponent \<open>e\<close> with \<open>2 ^ e \<le> x < 2 ^ (e + 1)\<close>, for \<open>x > 0\<close>.
  \<open>round_half_even\<close> rounds to the nearest integer, a tie to the even one.
\<close>

definition ilog2 :: "rat \<Rightarrow> int" where
  "ilog2 x = (if 1 \<le> x then bitlen \<lfloor>x\<rfloor> - 1 else - bitlen (\<lceil>1 / x\<rceil> - 1))"

definition round_half_even :: "rat \<Rightarrow> int" where
  "round_half_even x =
     (let f = \<lfloor>x\<rfloor>; d = x - of_int f
      in if d < 1 / 2 then f else if 1 / 2 < d then f + 1 else if even f then f else f + 1)"

text \<open>
  The binary64 result of an operation whose exact result is \<open>x\<close> (round to nearest, ties
  to even): \<open>x\<close> is rounded to a multiple of the spacing \<open>q\<close> of the binary64 numbers
  around it, and a result of magnitude \<open>2 ^ 1024\<close> or more is an infinity.
\<close>

definition fl :: "rat \<Rightarrow> float64" where
  "fl x =
     (if x = 0 then Fin 0
      else
        (let e = max (ilog2 \<bar>x\<bar>) (- 1022);
             q = 2 powi (e - 52);
             n = round_half_even (x / q)
         in if 2 ^ 1024 \<le> \<bar>of_int n * q\<bar> then (if 0 < x then PosInf else NegInf)
            else Fin (of_int n * q)))"

text \<open>\<^verbatim>\<open>a <= c\<close> and \<^verbatim>\<open>a - c\<close> for a value \<open>a\<close> and an integer constant \<open>c\<close> of the script.\<close>

fun fle :: "float64 \<Rightarrow> rat \<Rightarrow> bool" where
  "fle (Fin x) c \<longleftrightarrow> x \<le> c"
| "fle NegInf c \<longleftrightarrow> True"
| "fle PosInf c \<longleftrightarrow> False"
| "fle NaN c \<longleftrightarrow> False"

fun fsub :: "float64 \<Rightarrow> rat \<Rightarrow> float64" where
  "fsub (Fin x) c = fl (x - c)"
| "fsub a c = a"

section \<open>The libraries\<close>

text \<open>
  What the script leaves to pandas, plotly and Streamlit, and this repository does not
  hold, is a parameter of the model: \<^verbatim>\<open>Series.mean()\<close>, whose result depends on the
  order and rounding of the additions inside pandas; and the calls that build the map
  (lines 128 to 139), the line chart (181 to 186), the bar chart (194 to 211) and the
  grid (220 to 231) from the filtered frame, each of which returns what is drawn or
  raises.
\<close>

datatype element = Warning string | Plot string frame | Dataframe frame

record externals =
  ext_mean :: "cell list \<Rightarrow> error + float64"
  ext_map :: "frame \<Rightarrow> error + element"
  ext_line :: "frame \<Rightarrow> error + element"
  ext_bar :: "frame \<Rightarrow> error + element"
  ext_table :: "frame \<Rightarrow> error + element"

section \<open>The three figures (lines 145 to 150)\<close>

text \<open>
  \<^verbatim>\<open>Series.max()\<close> of a series of numbers skips the missing values and is NaN when no
  value is left; no rounding is involved. On a series that holds a string or a timestamp
  the comparison with -60 of line 157, if not pandas before it, raises TypeError.
\<close>

fun numbers :: "cell list \<Rightarrow> error + rat list" where
  "numbers [] = Inr []"
| "numbers (Num x # cs) = (case numbers cs of Inl e \<Rightarrow> Inl e | Inr xs \<Rightarrow> Inr (x # xs))"
| "numbers (Missing # cs) = numbers cs"
| "numbers (c # cs) = Inl TypeError"

definition series_max :: "cell list \<Rightarrow> error + float64" where
  "series_max col =
     (case numbers col of
        Inl e \<Rightarrow> Inl e
      | Inr [] \<Rightarrow> Inr NaN
      | Inr (x # xs) \<Rightarrow> Inr (Fin (foldl max x xs)))"

definition compute_kpis :: "externals \<Rightarrow> frame \<Rightarrow> error + float64 \<times> float64 \<times> nat" where
  "compute_kpis ext f =
     (if \<not> empty_df f then
        (case getitem f ''Pod20'' of
           Inl e \<Rightarrow> Inl e
         | Inr pod \<Rightarrow>
             (case ext_mean ext pod of
                Inl e \<Rightarrow> Inl e
              | Inr avg_temp \<Rightarrow>
                  (case series_max pod of
                     Inl e \<Rightarrow> Inl e
                   | Inr max_temp \<Rightarrow>
                       (case getitem f ''Status'' of
                          Inl e \<Rightarrow> Inl e
                        | Inr st \<Rightarrow>
                            (case select_rows f (series_eq st (Str ''WARNING'')) of
                               Inl e \<Rightarrow> Inl e
                             | Inr w \<Rightarrow> Inr (avg_temp, max_temp, length (rows w)))))))
      else Inr (Fin 0, Fin 0, 0))"

section \<open>Formatting numbers\<close>

text \<open>
  \<^verbatim>\<open>str(n)\<close> of a count, and the format \<^verbatim>\<open>.pf\<close> of a value for \<open>p > 0\<close>: a finite value is
  rounded to \<open>p\<close> decimal places, a tie going to the even neighbour, and written with its
  sign, its integer part, a point and exactly \<open>p\<close> decimals.
\<close>

definition digit :: "nat \<Rightarrow> char" where
  "digit d = ''0123456789'' ! d"

fun dec :: "nat \<Rightarrow> string" where
  "dec n = (if n < 10 then [digit n] else dec (n div 10) @ [digit (n mod 10)])"

definition zfill :: "nat \<Rightarrow> string \<Rightarrow> string" where
  "zfill p s = replicate (p - length s) (CHR ''0'') @ s"

definition format_fixed :: "nat \<Rightarrow> rat \<Rightarrow> string" where
  "format_fixed p x =
     (let n = nat (round_half_even (\<bar>x\<bar> * 10 ^ p))
      in (if x < 0 then ''-'' else []) @ dec (n div 10 ^ p) @ ''.'' @ zfill p (dec (n mod 10 ^ p)))"

fun format_f :: "nat \<Rightarrow> float64 \<Rightarrow> string" where
  "format_f p (Fin x) = format_fixed p x"
| "format_f p PosInf = ''inf''"
| "format_f p NegInf = ''-inf''"
| "format_f p NaN = ''nan''"

text \<open>
  Reading a numeral, to say what a text shows. \<open>numeral_of s n\<close>: the string \<open>s\<close> is the
  decimal numeral of \<open>n\<close>, made of digits only, with no leading zero. The script has no
  such functions.
\<close>

definition digit_value :: "char \<Rightarrow> nat" where
  "digit_value c = of_char c - 48"

definition decimal_value :: "string \<Rightarrow> nat" where
  "decimal_value s = foldl (\<lambda>a c. 10 * a + digit_value c) 0 s"

definition numeral_of :: "string \<Rightarrow> nat \<Rightarrow> bool" where
  "numeral_of s n \<longleftrightarrow>
     s \<noteq> [] \<and> set s \<subseteq> set ''0123456789'' \<and> (hd s = CHR ''0'' \<longrightarrow> s = ''0'')
     \<and> decimal_value s = n"

section \<open>The cards (lines 73 to 89 and 152 to 165)\<close>

text \<open>
  \<^verbatim>\<open>custom_metric_card\<close> fills an HTML snippet; the model keeps the five values it puts
  into the snippet, not the fixed markup around them. The two arrows and the degree sign
  are written as their UTF-8 bytes.
\<close>

record card =
  card_label :: string
  card_value :: string
  card_color :: string
  card_arrow :: string
  card_delta :: string

definition degree :: string where
  "degree = [CHR 0xC2, CHR 0xB0]"

definition arrow_down :: string where
  "arrow_down = [CHR 0xE2, CHR 0x96, CHR 0xBC]"

definition arrow_up :: string where
  "arrow_up = [CHR 0xE2, CHR 0x96, CHR 0xB2]"

definition custom_metric_card :: "string \<Rightarrow> string \<Rightarrow> string \<Rightarrow> string \<Rightarrow> card" where
  "custom_metric_card label val delta_text status =
     (if status = ''safe'' then
        \<lparr>card_label = label, card_value = val, card_color = ''#00CC96'',
         card_arrow = arrow_down, card_delta = delta_text\<rparr>
      else
        \<lparr>card_label = label, card_value = val, card_color = ''#EF553B'',
         card_arrow = arrow_up, card_delta = delta_text\<rparr>)"

text \<open>
  The arguments each of the three branches passes to \<^verbatim>\<open>custom_metric_card\<close>: label,
  value, delta text and status.
\<close>

definition kpi1_args :: "float64 \<Rightarrow> string \<times> string \<times> string \<times> string" where
  "kpi1_args avg_temp =
     (if fle avg_temp (- 60) then
        (''Avg Temperature'', format_f 2 avg_temp @ '' '' @ degree @ ''C'',
         ''Optimal Range'', ''safe'')
      else
        (''Avg Temperature'', format_f 2 avg_temp @ '' '' @ degree @ ''C'',
         ''Too Warm (+'' @ format_f 1 (fsub avg_temp (- 60)) @ degree @ ''C)'', ''danger''))"

definition kpi2_args :: "float64 \<Rightarrow> string \<times> string \<times> string \<times> string" where
  "kpi2_args max_temp =
     (if fle max_temp (- 60) then
        (''Max Temperature'', format_f 2 max_temp @ '' '' @ degree @ ''C'',
         ''Within Limit (< -60'' @ degree @ ''C)'', ''safe'')
      else
        (''Max Temperature'', format_f 2 max_temp @ '' '' @ degree @ ''C'',
         ''Exceeds Limit'', ''danger''))"

definition kpi3_args :: "nat \<Rightarrow> string \<times> string \<times> string \<times> string" where
  "kpi3_args total_breaches =
     (if total_breaches = 0 then (''Breach Events'', ''0'', ''No Incidents'', ''safe'')
      else (''Breach Events'', dec total_breaches, ''Alerts Detected'', ''danger''))"

definition status_of :: "string \<times> string \<times> string \<times> string \<Rightarrow> string" where
  "status_of a = (case a of (label, val, delta_text, status) \<Rightarrow> status)"

definition delta_of :: "string \<times> string \<times> string \<times> string \<Rightarrow> string" where
  "delta_of a = (case a of (label, val, delta_text, status) \<Rightarrow> delta_text)"

definition value_of :: "string \<times> string \<times> string \<times> string \<Rightarrow> string" where
  "value_of a = (case a of (label, val, delta_text, status) \<Rightarrow> val)"

definition html :: "string \<times> string \<times> string \<times> string \<Rightarrow> card" where
  "html a = (case a of (label, val, delta_text, status) \<Rightarrow>
     custom_metric_card label val delta_text status)"

section \<open>The page\<close>

text \<open>
  Each of the four sections below the cards draws from the filtered frame, or shows a
  warning when that frame is empty (lines 127 to 141, 180 to 188, 193 to 213 and 219 to
  233).
\<close>

definition map_section :: "externals \<Rightarrow> frame \<Rightarrow> error + element" where
  "map_section ext f =
     (if \<not> empty_df f then ext_map ext f else Inr (Warning ''No location data available.''))"

definition line_section :: "externals \<Rightarrow> frame \<Rightarrow> error + element" where
  "line_section ext f = (if \<not> empty_df f then ext_line ext f else Inr (Warning ''No data.''))"

definition bar_section :: "externals \<Rightarrow> frame \<Rightarrow> error + element" where
  "bar_section ext f = (if \<not> empty_df f then ext_bar ext f else Inr (Warning ''No data.''))"

definition table_section :: "externals \<Rightarrow> frame \<Rightarrow> error + element" where
  "table_section ext f =
     (if \<not> empty_df f then ext_table ext f else Inr (Warning ''No data to display.''))"

record page =
  page_buttons :: "(string \<times> string) list"
  page_filtered :: frame
  page_map :: element
  page_kpis :: "float64 \<times> float64 \<times> nat"
  page_cards :: "card list"
  page_line :: element
  page_bar :: element
  page_table :: element

text \<open>
  One run of the script from line 111 on, for a loaded frame and a selection, in which
  no button is pressed, in the order of the script: the stage list and its buttons, the
  filter, the map, the figures and the cards, the two charts, the grid. The first
  exception ends the run; the result does not keep what was drawn before it.
\<close>

definition render :: "externals \<Rightarrow> frame \<Rightarrow> cell \<Rightarrow> error + page" where
  "render ext t sel =
     (case location_list t of
        Inl e \<Rightarrow> Inl e
      | Inr locs \<Rightarrow>
     (case buttons locs sel [] of
        Inl e \<Rightarrow> Inl e
      | Inr bs \<Rightarrow>
     (case df_filtered t sel of
        Inl e \<Rightarrow> Inl e
      | Inr f \<Rightarrow>
     (case map_section ext f of
        Inl e \<Rightarrow> Inl e
      | Inr m \<Rightarrow>
     (case compute_kpis ext f of
        Inl e \<Rightarrow> Inl e
      | Inr (avg_temp, max_temp, total_breaches) \<Rightarrow>
     (case line_section ext f of
        Inl e \<Rightarrow> Inl e
      | Inr l \<Rightarrow>
     (case bar_section ext f of
        Inl e \<Rightarrow> Inl e
      | Inr b \<Rightarrow>
     (case table_section ext f of
        Inl e \<Rightarrow> Inl e
      | Inr g \<Rightarrow>
          Inr \<lparr>page_buttons = bs,
               page_filtered = f,
               page_map = m,
               page_kpis = (avg_temp, max_temp, total_breaches),
               page_cards = [html (kpi1_args avg_temp), html (kpi2_args max_temp),
                             html (kpi3_args total_breaches)],
               page_line = l,
               page_bar = b,
               page_table = g\<rparr>))))))))"

section \<open>Sample tables\<close>

text \<open>Small tables with the six columns of the data file, to run the script on.\<close>

definition csv_columns :: "string list" where
  "csv_columns = [''DateTime'', ''Location_Name'', ''Latitude'', ''Longitude'', ''Pod20'', ''Status'']"

definition route :: frame where
  "route = \<lparr>columns = csv_columns, rows =
     [[Timestamp 0, Str ''SiteX'', Num 40, Num (- 75), Num (- 55), Str ''WARNING''],
      [Timestamp 600, Str ''Depot'', Num 41, Num (- 74), Num (- 70), Str ''OK''],
      [Timestamp 1200, Str ''SiteX'', Num 40, Num (- 75), Num (- 65), Str ''OK'']]\<rparr>"

definition site_x :: frame where
  "site_x = \<lparr>columns = csv_columns, rows =
     [[Timestamp 0, Str ''SiteX'', Num 40, Num (- 75), Num (- 55), Str ''WARNING''],
      [Timestamp 1200, Str ''SiteX'', Num 40, Num (- 75), Num (- 65), Str ''OK'']]\<rparr>"

definition no_status :: frame where
  "no_status = \<lparr>columns = [''DateTime'', ''Location_Name'', ''Latitude'', ''Longitude'', ''Pod20''],
     rows = [[Str ''2021-03-01'', Str ''Depot'', Num 41, Num (- 74), Num (- 70)]]\<rparr>"

definition bad_date :: frame where
  "bad_date = \<lparr>columns = csv_columns, rows =
     [[Str ''2021-03-01'', Str ''Depot'', Num 41, Num (- 74), Num (- 70), Str ''OK''],
      [Num 3, Str ''Depot'', Num 41, Num (- 74), Num (- 71), Str ''OK'']]\<rparr>"

definition no_datetime :: frame where
  "no_datetime = \<lparr>columns = [''Location_Name'', ''Pod20'', ''Status''],
     rows = [[Str ''Depot'', Num (- 70), Str ''OK'']]\<rparr>"

definition session0 :: session where
  "session0 = \<lparr>heap = [route], df_addr = 0, selected_location = Str ''SiteX''\<rparr>"

definition raw_row :: "nat \<Rightarrow> cell list" where
  "raw_row k = [Str (replicate k (CHR ''1'')), Str ''Depot'', Num 41, Num (- 74),
                Num (- 70 - of_nat k), Str ''OK'']"

definition raw_log :: frame where
  "raw_log = \<lparr>columns = csv_columns, rows = map raw_row [0..<11]\<rparr>"

definition stamp :: "cell \<Rightarrow> int option" where
  "stamp c = (case c of Str s \<Rightarrow> Some (int (length s)) | Num x \<Rightarrow> None | Timestamp t \<Rightarrow> Some t
                | Missing \<Rightarrow> None)"

text \<open>
  A table in which one stage is named like the sentinel, and a table with a missing
  temperature.
\<close>

definition all_named :: frame where
  "all_named = \<lparr>columns = csv_columns, rows =
     [[Timestamp 0, Str ''All Locations'', Num 40, Num (- 75), Num (- 70), Str ''OK'']]\<rparr>"


text \<open>
  Sample libraries: a mean that adds the numbers present exactly and rounds the quotient
  once, and builders that raise ValueError on a frame without a column they draw.
\<close>

definition rounded_mean :: "cell list \<Rightarrow> error + float64" where
  "rounded_mean col =
     (case numbers col of
        Inl e \<Rightarrow> Inl e
      | Inr [] \<Rightarrow> Inr NaN
      | Inr (x # xs) \<Rightarrow> Inr (fl (sum_list (x # xs) / of_nat (length (x # xs)))))"

definition draw :: "element \<Rightarrow> string list \<Rightarrow> frame \<Rightarrow> error + element" where
  "draw el cols f = (if set cols \<subseteq> set (columns f) then Inr el else Inl ValueError)"

definition sample_ext :: externals where
  "sample_ext =
     \<lparr>ext_mean = rounded_mean,
      ext_map = (\<lambda>f. draw (Plot ''scatter_mapbox'' f)
                  [''Latitude'', ''Longitude'', ''Status'', ''Location_Name''] f),
      ext_line = (\<lambda>f. draw (Plot ''line'' f) [''DateTime'', ''Pod20''] f),
      ext_bar = (\<lambda>f. draw (Plot ''bar'' f) [''Location_Name'', ''Pod20''] f),
      ext_table = (\<lambda>f. draw (Dataframe f) [''DateTime'', ''Location_Name'', ''Pod20'', ''Status''] f)\<rparr>"

text \<open>The binary64 number that \<^verbatim>\<open>-27.95\<close> is read as.\<close>

definition warm :: rat where
  "warm = - 7867225599062835 / 281474976710656"

section \<open>Columns and masks\<close>

declare dec.simps [simp del]

lemma column_index_None: "column_index c cs = None \<longleftrightarrow> c \<notin> set cs"
  by (induction cs) auto

lemma getitem_missing:
  assumes "c \<notin> set (columns df)"
  shows "getitem df c = Inl (KeyError c)"
proof -
  from assms have "column_index c (columns df) = None"
    by (simp add: column_index_None)
  then show ?thesis by (simp add: getitem_def)
qed

lemma getitem_length: "getitem t c = Inr col \<Longrightarrow> length col = length (rows t)"
  by (auto simp: getitem_def split: option.splits)

lemma select_by_mask: "map fst (filter snd (zip xs (map P xs))) = filter P xs"
  by (induction xs) auto

lemma select_rows_eq:
  "select_rows t (series_eq (map (\<lambda>r. r ! i) (rows t)) v)
     = Inr (t\<lparr>rows := filter (\<lambda>r. py_eq (r ! i) v) (rows t)\<rparr>)"
proof -
  have "series_eq (map (\<lambda>r. r ! i) (rows t)) v = map (\<lambda>r. py_eq (r ! i) v) (rows t)"
    by (simp add: series_eq_def)
  then show ?thesis
    by (simp add: select_rows_def select_by_mask)
qed

lemma zip_map_same: "map h (zip xs (map g xs)) = map (\<lambda>x. h (x, g x)) xs"
  by (induction xs) auto

lemma count_list_filter: "count_list (filter P xs) x = (if P x then count_list xs x else 0)"
  by (induction xs) auto

section \<open>Properties of loading\<close>

lemma length_step10: "length (step10 xs) = (length xs + 9) div 10"
proof (induction xs rule: step10.induct)
  case 1
  show ?case by simp
next
  case (2 x xs)
  have "(length xs - 9 + 9) div 10 + 1 = (length xs + 10) div 10"
    by (cases "9 \<le> length xs") auto
  with 2 show ?case by simp
qed

lemma nth_step10: "k < length (step10 xs) \<Longrightarrow> step10 xs ! k = xs ! (10 * k)"
proof (induction xs arbitrary: k rule: step10.induct)
  case 1
  then show ?case by simp
next
  case (2 x xs)
  show ?case
  proof (cases k)
    case 0
    then show ?thesis by simp
  next
    case (Suc j)
    with 2 have j: "j < length (step10 (drop 9 xs))" by simp
    then have "0 < length (drop 9 xs)" by (cases "drop 9 xs") auto
    then have "9 \<le> length xs" by simp
    moreover from j have "step10 (drop 9 xs) ! j = drop 9 xs ! (10 * j)" by (rule "2.IH")
    ultimately show ?thesis using Suc by simp
  qed
qed

lemma ceiling_tenth: "\<lceil>rat_of_nat n / 10\<rceil> = int ((n + 9) div 10)"
  by linarith

lemma to_datetime_ok:
  "\<forall>v\<in>set col. p v \<noteq> None \<Longrightarrow> to_datetime p col = Inr (map (\<lambda>v. Timestamp (the (p v))) col)"
  by (induction col) auto

lemma to_datetime_fails: "\<exists>v\<in>set col. p v = None \<Longrightarrow> to_datetime p col = Inl ValueError"
proof (induction col)
  case Nil
  then show ?case by simp
next
  case (Cons c col)
  show ?case
  proof (cases "p c")
    case None
    then show ?thesis by simp
  next
    case (Some t)
    with Cons.prems have "\<exists>v\<in>set col. p v = None" by auto
    then have "to_datetime p col = Inl ValueError" by (rule Cons.IH)
    with Some show ?thesis by simp
  qed
qed

lemma load_data_rows:
  assumes "column_index ''DateTime'' (columns df) = Some i"
    and "\<forall>r\<in>set (rows df). p (r ! i) \<noteq> None"
  shows "load_data (Inr df) p =
    Inr (df\<lparr>rows := step10 (map (\<lambda>r. r[i := Timestamp (the (p (r ! i)))]) (rows df))\<rparr>)"
proof -
  have "to_datetime p (map (\<lambda>r. r ! i) (rows df)) =
      Inr (map (\<lambda>v. Timestamp (the (p v))) (map (\<lambda>r. r ! i) (rows df)))"
    using assms(2) by (intro to_datetime_ok) simp
  then show ?thesis
    using assms(1)
    by (simp add: load_data_def getitem_def setitem_def iloc_step10_def zip_map_same o_def)
qed

text \<open>
  C3. When the file has a DateTime column at position \<open>i\<close> and every value of it parses,
  \<^verbatim>\<open>load_data\<close> returns a table with the columns of the file and \<open>ceil(N/10)\<close> rows for
  the \<open>N\<close> rows of the file; its row \<open>k\<close> is the file's row \<open>10 * k\<close>, with the DateTime
  cell replaced by its timestamp and every other cell as it was.
\<close>

theorem load_data_every_tenth_row:
  assumes "column_index ''DateTime'' (columns df) = Some i"
    and "\<forall>r\<in>set (rows df). p (r ! i) \<noteq> None"
  shows "\<exists>t. load_data (Inr df) p = Inr t \<and> columns t = columns df
    \<and> int (length (rows t)) = \<lceil>rat_of_nat (length (rows df)) / 10\<rceil>
    \<and> (\<forall>k<length (rows t). 10 * k < length (rows df)
          \<and> rows t ! k = (rows df ! (10 * k))[i := Timestamp (the (p (rows df ! (10 * k) ! i)))])"
proof -
  let ?f = "\<lambda>r. r[i := Timestamp (the (p (r ! i)))]"
  let ?t = "df\<lparr>rows := step10 (map ?f (rows df))\<rparr>"
  have load: "load_data (Inr df) p = Inr ?t"
    using assms by (rule load_data_rows)
  have len: "length (rows ?t) = (length (rows df) + 9) div 10"
    by (simp add: length_step10)
  have nth: "10 * k < length (rows df) \<and> rows ?t ! k = ?f (rows df ! (10 * k))"
    if k: "k < length (rows ?t)" for k
  proof -
    from k len have bound: "10 * k < length (rows df)" by linarith
    from k have "k < length (step10 (map ?f (rows df)))" by simp
    then have "step10 (map ?f (rows df)) ! k = map ?f (rows df) ! (10 * k)"
      by (rule nth_step10)
    with bound show ?thesis by simp
  qed
  from load len nth show ?thesis
    by (intro exI [of _ ?t]) (simp add: ceiling_tenth)
qed

theorem load_data_every_tenth_row_witness:
  "\<exists>t. load_data (Inr raw_log) stamp = Inr t \<and> length (rows t) = 2
     \<and> rows t ! 0 = [Timestamp 0, Str ''Depot'', Num 41, Num (- 74), Num (- 70), Str ''OK'']
     \<and> rows t ! 1 = [Timestamp 10, Str ''Depot'', Num 41, Num (- 74), Num (- 80), Str ''OK'']"
proof -
  have c: "column_index ''DateTime'' (columns raw_log) = Some 0"
    by (simp add: raw_log_def csv_columns_def)
  have p: "\<forall>r\<in>set (rows raw_log). stamp (r ! 0) \<noteq> None"
    by (simp add: raw_log_def raw_row_def stamp_def)
  have n: "length (rows raw_log) = 11"
    by (simp add: raw_log_def)
  from load_data_every_tenth_row [OF c p] obtain t
    where t: "load_data (Inr raw_log) stamp = Inr t"
      and len: "int (length (rows t)) = \<lceil>rat_of_nat (length (rows raw_log)) / 10\<rceil>"
      and nth: "\<forall>k<length (rows t).
        rows t ! k = (rows raw_log ! (10 * k))[0 := Timestamp (the (stamp (rows raw_log ! (10 * k) ! 0)))]"
    by blast
  from len have len2: "length (rows t) = 2"
    unfolding n ceiling_tenth by simp
  have r0: "rows raw_log ! 0 = raw_row 0" and r10: "rows raw_log ! 10 = raw_row 10"
    by (simp_all add: raw_log_def)
  from nth len2 have "rows t ! 0 = (raw_row 0)[0 := Timestamp (the (stamp (raw_row 0 ! 0)))]"
    and "rows t ! 1 = (raw_row 10)[0 := Timestamp (the (stamp (raw_row 10 ! 0)))]"
    using r0 r10 by auto
  then have "rows t ! 0 = [Timestamp 0, Str ''Depot'', Num 41, Num (- 74), Num (- 70), Str ''OK'']"
    and "rows t ! 1 = [Timestamp 10, Str ''Depot'', Num 41, Num (- 74), Num (- 80), Str ''OK'']"
    by (simp_all add: raw_row_def stamp_def)
  with t len2 show ?thesis by blast
qed

section \<open>Properties of filtering\<close>

lemma df_filtered_rows:
  assumes "column_index ''Location_Name'' (columns t) = Some i"
    and "sel \<noteq> Str ''All Locations''"
  shows "df_filtered t sel = Inr (t\<lparr>rows := filter (\<lambda>r. py_eq (r ! i) sel) (rows t)\<rparr>)"
  using assms by (simp add: df_filtered_def getitem_def select_rows_eq)

lemma route_locations:
  "getitem route ''Location_Name'' = Inr [Str ''SiteX'', Str ''Depot'', Str ''SiteX'']"
  by (simp add: getitem_def route_def csv_columns_def)

lemma route_sitex: "df_filtered route (Str ''SiteX'') = Inr site_x"
  by (simp add: df_filtered_def getitem_def route_def site_x_def csv_columns_def select_rows_def
      series_eq_def py_eq_def)

text \<open>
  C5. For a table with a Location_Name column and a selection \<open>L\<close> other than
  "All Locations", filtering returns a table in which every Location_Name value is \<open>L\<close>,
  and its number of rows plus the number of rows of the table whose Location_Name is not
  \<open>L\<close> is the number of rows of the table. "Is not \<open>L\<close>" is Python's \<^verbatim>\<open>!=\<close>; for every
  \<open>L\<close> but NaN that is to be another cell than \<open>L\<close>.
\<close>

theorem df_filtered_partition:
  assumes "getitem t ''Location_Name'' = Inr col"
    and "L \<noteq> Str ''All Locations''"
  shows "\<exists>f col'. df_filtered t L = Inr f \<and> getitem f ''Location_Name'' = Inr col'
    \<and> length col' = length (rows f) \<and> (\<forall>v\<in>set col'. v = L)
    \<and> length (rows f) + length (filter (\<lambda>v. \<not> py_eq v L) col) = length (rows t)
    \<and> (L \<noteq> Missing \<longrightarrow>
         length (rows f) + length (filter (\<lambda>v. v \<noteq> L) col) = length (rows t))"
proof -
  from assms(1) obtain i where i: "column_index ''Location_Name'' (columns t) = Some i"
    and col: "col = map (\<lambda>r. r ! i) (rows t)"
    by (auto simp: getitem_def split: option.splits)
  let ?f = "t\<lparr>rows := filter (\<lambda>r. py_eq (r ! i) L) (rows t)\<rparr>"
  have f: "df_filtered t L = Inr ?f"
    using i assms(2) by (rule df_filtered_rows)
  have g: "getitem ?f ''Location_Name'' = Inr (map (\<lambda>r. r ! i) (rows ?f))"
    using i by (simp add: getitem_def)
  have all: "\<forall>v\<in>set (map (\<lambda>r. r ! i) (rows ?f)). v = L"
    by (auto simp: py_eq_def)
  have "length (filter (\<lambda>v. \<not> py_eq v L) col) = length (filter (\<lambda>r. \<not> py_eq (r ! i) L) (rows t))"
    unfolding col by (simp add: filter_map o_def)
  then have part: "length (rows ?f) + length (filter (\<lambda>v. \<not> py_eq v L) col) = length (rows t)"
    using sum_length_filter_compl [of "\<lambda>r. py_eq (r ! i) L" "rows t"] by simp
  have same: "filter (\<lambda>v. v \<noteq> L) col = filter (\<lambda>v. \<not> py_eq v L) col" if "L \<noteq> Missing"
    using that by (intro filter_cong) (auto simp: py_eq_def)
  have len: "length (map (\<lambda>r. r ! i) (rows ?f)) = length (rows ?f)"
    by simp
  from part same have part': "L \<noteq> Missing \<longrightarrow>
      length (rows ?f) + length (filter (\<lambda>v. v \<noteq> L) col) = length (rows t)"
    by simp
  from f g len all part part' show ?thesis
    by blast
qed

theorem df_filtered_partition_witness:
  "\<exists>f. df_filtered route (Str ''SiteX'') = Inr f
     \<and> getitem f ''Location_Name'' = Inr [Str ''SiteX'', Str ''SiteX'']
     \<and> length (rows f) + length (filter (\<lambda>v. v \<noteq> Str ''SiteX'') [Str ''SiteX'', Str ''Depot'', Str ''SiteX''])
         = length (rows route)"
proof -
  have "Str ''SiteX'' \<noteq> Str ''All Locations''" by simp
  from df_filtered_partition [OF route_locations this] obtain f
    where f: "df_filtered route (Str ''SiteX'') = Inr f"
      and part: "length (rows f) + length (filter (\<lambda>v. v \<noteq> Str ''SiteX'')
        [Str ''SiteX'', Str ''Depot'', Str ''SiteX'']) = length (rows route)"
    by blast
  from f have "getitem f ''Location_Name'' = Inr [Str ''SiteX'', Str ''SiteX'']"
    unfolding route_sitex by (auto simp: getitem_def site_x_def csv_columns_def)
  with f part show ?thesis by blast
qed

text \<open>
  C6. With the selection "All Locations" filtering returns the table it was given:
  the same rows in the same order (and the same columns).
\<close>

theorem df_filtered_all_locations: "df_filtered t (Str ''All Locations'') = Inr t"
  by (simp add: df_filtered_def)

text \<open>
  C10. For a table with a Location_Name column and any selection \<open>L\<close>, the sentinel and
  names absent from the table included, filtering returns a table with the same columns
  whose rows are a subsequence of the rows of the table (same relative order), and a row
  that is retained occurs as often in the result as in the table.
\<close>

theorem df_filtered_subseq:
  assumes "getitem t ''Location_Name'' = Inr col"
  shows "\<exists>f. df_filtered t L = Inr f \<and> columns f = columns t \<and> subseq (rows f) (rows t)
    \<and> (\<forall>r\<in>set (rows f). count_list (rows f) r = count_list (rows t) r)"
proof (cases "L = Str ''All Locations''")
  case True
  then show ?thesis by (simp add: df_filtered_def)
next
  case False
  from assms obtain i where i: "column_index ''Location_Name'' (columns t) = Some i"
    by (auto simp: getitem_def split: option.splits)
  let ?f = "t\<lparr>rows := filter (\<lambda>r. py_eq (r ! i) L) (rows t)\<rparr>"
  have "df_filtered t L = Inr ?f"
    using i False by (rule df_filtered_rows)
  moreover have "subseq (rows ?f) (rows t)" by simp
  moreover have "\<forall>r\<in>set (rows ?f). count_list (rows ?f) r = count_list (rows t) r"
    by (simp add: count_list_filter)
  moreover have "columns ?f = columns t" by simp
  ultimately show ?thesis by blast
qed

theorem df_filtered_subseq_witness:
  "\<exists>f. df_filtered route (Str ''Depot'') = Inr f
     \<and> rows f = [[Timestamp 600, Str ''Depot'', Num 41, Num (- 74), Num (- 70), Str ''OK'']]
     \<and> subseq (rows f) (rows route)"
proof -
  from df_filtered_subseq [OF route_locations, of "Str ''Depot''"] obtain f
    where f: "df_filtered route (Str ''Depot'') = Inr f" and s: "subseq (rows f) (rows route)"
    by blast
  from f have "rows f = [[Timestamp 600, Str ''Depot'', Num 41, Num (- 74), Num (- 70), Str ''OK'']]"
    by (auto simp: df_filtered_def getitem_def route_def csv_columns_def select_rows_def
        series_eq_def py_eq_def)
  with f s show ?thesis by blast
qed


text \<open>
  C9. Lines 120 to 122 on the store: when \<^verbatim>\<open>df\<close> is an object of the store that has a
  Location_Name column, the step returns; every object that existed before it, the
  loaded table among them, is as it was; \<^verbatim>\<open>df\<close> and the selection are still bound to what
  they were; and \<^verbatim>\<open>df_filtered\<close> is bound to an object allocated by the step, other than
  the loaded table, that holds the filtered table.
\<close>

theorem filter_step_frame:
  assumes "df_addr s < length (heap s)"
    and "getitem (heap s ! df_addr s) ''Location_Name'' = Inr col"
  shows "\<exists>s' a. filter_step s = Inr (s', a)
    \<and> df_addr s' = df_addr s \<and> selected_location s' = selected_location s
    \<and> (\<forall>b<length (heap s). heap s' ! b = heap s ! b)
    \<and> heap s' ! df_addr s = heap s ! df_addr s
    \<and> length (heap s) \<le> a \<and> a < length (heap s') \<and> a \<noteq> df_addr s
    \<and> df_filtered (heap s ! df_addr s) (selected_location s) = Inr (heap s' ! a)"
proof (cases "selected_location s = Str ''All Locations''")
  case True
  let ?s = "s\<lparr>heap := heap s @ [heap s ! df_addr s]\<rparr>"
  have "filter_step s = Inr (?s, length (heap s))"
    using True by (simp add: filter_step_def alloc_def)
  moreover have "df_filtered (heap s ! df_addr s) (selected_location s) = Inr (heap ?s ! length (heap s))"
    using True by (simp add: df_filtered_def)
  ultimately show ?thesis
    using assms(1) by (intro exI [of _ ?s] exI [of _ "length (heap s)"]) (simp add: nth_append)
next
  case False
  let ?t = "heap s ! df_addr s"
  from assms(2) obtain i where col: "col = map (\<lambda>r. r ! i) (rows ?t)"
    by (auto simp: getitem_def split: option.splits)
  let ?f = "?t\<lparr>rows := filter (\<lambda>r. py_eq (r ! i) (selected_location s)) (rows ?t)\<rparr>"
  let ?s = "s\<lparr>heap := heap s @ [?t, ?f]\<rparr>"
  have sel: "select_rows ?t (series_eq col (selected_location s)) = Inr ?f"
    unfolding col by (rule select_rows_eq)
  have "filter_step s = Inr (?s, Suc (length (heap s)))"
    using False assms(2) sel by (simp add: filter_step_def alloc_def)
  moreover have "df_filtered ?t (selected_location s) = Inr (heap ?s ! Suc (length (heap s)))"
    using False assms(2) sel by (simp add: df_filtered_def nth_append)
  ultimately show ?thesis
    using assms(1)
    by (intro exI [of _ ?s] exI [of _ "Suc (length (heap s))"]) (simp add: nth_append)
qed

theorem filter_step_frame_witness:
  "\<exists>s' a. filter_step session0 = Inr (s', a) \<and> heap s' ! 0 = route \<and> a \<noteq> 0
     \<and> heap s' ! a = site_x"
proof -
  have "df_addr session0 < length (heap session0)"
    and "getitem (heap session0 ! df_addr session0) ''Location_Name''
      = Inr [Str ''SiteX'', Str ''Depot'', Str ''SiteX'']"
    by (simp_all add: session0_def route_locations)
  from filter_step_frame [OF this] obtain s' a
    where "filter_step session0 = Inr (s', a)"
      and "heap s' ! df_addr session0 = heap session0 ! df_addr session0"
      and "a \<noteq> df_addr session0"
      and "df_filtered (heap session0 ! df_addr session0) (selected_location session0)
        = Inr (heap s' ! a)"
    by blast
  then have "filter_step session0 = Inr (s', a) \<and> heap s' ! 0 = route \<and> a \<noteq> 0
      \<and> heap s' ! a = site_x"
    by (simp add: session0_def route_sitex)
  then show ?thesis by blast
qed

section \<open>Failures of loading\<close>

text \<open>
  C7, as the code has it. \<^verbatim>\<open>load_data\<close> raises, and returns no table, when reading the
  file raises (the file is missing or unreadable), when the file has no DateTime column
  (KeyError), and when one value of that column does not parse (ValueError), whatever
  the other rows hold. When the DateTime column is there and parses, it returns a
  table: no other column is looked at.
\<close>

theorem load_data_failure:
  "load_data (Inl e) p = Inl e
   \<and> (''DateTime'' \<notin> set (columns df) \<longrightarrow> load_data (Inr df) p = Inl (KeyError ''DateTime''))
   \<and> (getitem df ''DateTime'' = Inr col \<and> (\<exists>v\<in>set col. p v = None) \<longrightarrow>
        load_data (Inr df) p = Inl ValueError)
   \<and> (getitem df ''DateTime'' = Inr col \<and> (\<forall>v\<in>set col. p v \<noteq> None) \<longrightarrow>
        (\<exists>t. load_data (Inr df) p = Inr t))"
proof (intro conjI impI)
  show "load_data (Inl e) p = Inl e"
    by (simp add: load_data_def)
next
  assume "''DateTime'' \<notin> set (columns df)"
  then show "load_data (Inr df) p = Inl (KeyError ''DateTime'')"
    by (simp add: load_data_def getitem_missing)
next
  assume "getitem df ''DateTime'' = Inr col \<and> (\<exists>v\<in>set col. p v = None)"
  then show "load_data (Inr df) p = Inl ValueError"
    by (simp add: load_data_def to_datetime_fails)
next
  assume a: "getitem df ''DateTime'' = Inr col \<and> (\<forall>v\<in>set col. p v \<noteq> None)"
  then have "length col = length (rows df)"
    using getitem_length [of df "''DateTime''" col] by blast
  with a show "\<exists>t. load_data (Inr df) p = Inr t"
    by (simp add: load_data_def to_datetime_ok setitem_def split: option.splits)
qed

theorem load_data_failure_witness:
  "load_data (Inl IOError) stamp = Inl IOError
   \<and> load_data (Inr no_datetime) stamp = Inl (KeyError ''DateTime'')
   \<and> load_data (Inr bad_date) stamp = Inl ValueError
   \<and> (\<exists>t. load_data (Inr no_status) stamp = Inr t)"
proof -
  have a: "''DateTime'' \<notin> set (columns no_datetime)"
    by (simp add: no_datetime_def)
  have b: "getitem bad_date ''DateTime'' = Inr [Str ''2021-03-01'', Num 3]
      \<and> (\<exists>v\<in>set [Str ''2021-03-01'', Num 3]. stamp v = None)"
    by (simp add: getitem_def bad_date_def csv_columns_def stamp_def)
  have c: "getitem no_status ''DateTime'' = Inr [Str ''2021-03-01'']
      \<and> (\<forall>v\<in>set [Str ''2021-03-01'']. stamp v \<noteq> None)"
    by (simp add: getitem_def no_status_def stamp_def)
  from load_data_failure [of IOError stamp no_datetime "[]"] a
  have "load_data (Inl IOError) stamp = Inl IOError"
    and "load_data (Inr no_datetime) stamp = Inl (KeyError ''DateTime'')"
    by simp_all
  moreover from load_data_failure [of IOError stamp bad_date "[Str ''2021-03-01'', Num 3]"] b
  have "load_data (Inr bad_date) stamp = Inl ValueError"
    by blast
  moreover from load_data_failure [of IOError stamp no_status "[Str ''2021-03-01'']"] c
  have "\<exists>t. load_data (Inr no_status) stamp = Inr t"
    by blast
  ultimately show ?thesis by blast
qed

text \<open>
  A file without the Status column: \<^verbatim>\<open>load_data\<close> does not raise, it returns the table
  without that column.
\<close>

theorem load_data_missing_status_counterexample:
  "''Status'' \<notin> set (columns no_status)
   \<and> load_data (Inr no_status) stamp =
       Inr \<lparr>columns = [''DateTime'', ''Location_Name'', ''Latitude'', ''Longitude'', ''Pod20''],
            rows = [[Timestamp 10, Str ''Depot'', Num 41, Num (- 74), Num (- 70)]]\<rparr>"
  by (simp add: no_status_def load_data_def getitem_def setitem_def iloc_step10_def stamp_def)

section \<open>The stage list\<close>

lemma unique_snoc:
  "unique (xs @ [x]) = (if x \<in> set (unique xs) then unique xs else unique xs @ [x])"
  by (simp add: unique_def)

lemma set_unique: "set (unique xs) = set xs"
  by (induction xs rule: rev_induct) (auto simp: unique_snoc unique_def)

lemma distinct_unique: "distinct (unique xs)"
  by (induction xs rule: rev_induct) (auto simp: unique_snoc unique_def)

lemma first_occurrence_less:
  "a \<in> set xs \<Longrightarrow> length (takeWhile (\<lambda>z. z \<noteq> a) xs) < length xs"
  by (induction xs) auto

text \<open>
  \<open>length (takeWhile (\<lambda>z. z \<noteq> a) xs)\<close> is the position at which \<open>a\<close> is first seen in \<open>xs\<close>:
  the values of \<open>unique xs\<close> are in the order of these positions.
\<close>

lemma first_seen_order:
  "sorted_wrt (\<lambda>a b. length (takeWhile (\<lambda>z. z \<noteq> a) xs) < length (takeWhile (\<lambda>z. z \<noteq> b) xs))
     (unique xs)"
proof (induction xs rule: rev_induct)
  case Nil
  show ?case by (simp add: unique_def)
next
  case (snoc x xs)
  have keep: "length (takeWhile (\<lambda>z. z \<noteq> a) (xs @ [x])) = length (takeWhile (\<lambda>z. z \<noteq> a) xs)"
    if "a \<in> set xs" for a
    using that by simp
  have old: "sorted_wrt (\<lambda>a b. length (takeWhile (\<lambda>z. z \<noteq> a) (xs @ [x]))
      < length (takeWhile (\<lambda>z. z \<noteq> b) (xs @ [x]))) (unique xs)"
    using snoc.IH
    by (rule sorted_wrt_mono_rel [rotated]) (simp add: keep set_unique)
  show ?case
  proof (cases "x \<in> set xs")
    case True
    with old show ?thesis by (simp add: unique_snoc set_unique)
  next
    case False
    have "length (takeWhile (\<lambda>z. z \<noteq> a) xs) < length xs" if "a \<in> set xs" for a
      using that by (rule first_occurrence_less)
    moreover have "takeWhile (\<lambda>z. z \<noteq> x) (xs @ [x]) = xs @ takeWhile (\<lambda>z. z \<noteq> x) [x]"
      using False by (intro takeWhile_append2) auto
    ultimately show ?thesis
      using old False by (simp add: unique_snoc set_unique sorted_wrt_append keep)
  qed
qed

text \<open>
  C8. For a table with a Location_Name column, the list of selectable locations is
  "All Locations" followed by the values of that column without repetition: each value
  of the column once, in the order in which the values are first seen in the column
  (not sorted).
\<close>

theorem location_list_first_seen:
  assumes "getitem t ''Location_Name'' = Inr col"
  shows "\<exists>us. location_list t = Inr (Str ''All Locations'' # us) \<and> distinct us \<and> set us = set col
    \<and> sorted_wrt (\<lambda>a b. length (takeWhile (\<lambda>z. z \<noteq> a) col) < length (takeWhile (\<lambda>z. z \<noteq> b) col)) us"
  using assms by (simp add: location_list_def set_unique distinct_unique first_seen_order)

theorem location_list_first_seen_witness:
  "location_list route = Inr [Str ''All Locations'', Str ''SiteX'', Str ''Depot'']"
proof -
  let ?col = "[Str ''SiteX'', Str ''Depot'', Str ''SiteX'']"
  from location_list_first_seen [OF route_locations] obtain us
    where l: "location_list route = Inr (Str ''All Locations'' # us)"
      and d: "distinct us" and s: "set us = set ?col"
      and o: "sorted_wrt (\<lambda>a b. length (takeWhile (\<lambda>z. z \<noteq> a) ?col)
        < length (takeWhile (\<lambda>z. z \<noteq> b) ?col)) us"
    by blast
  from l have "us = unique ?col"
    by (simp add: location_list_def route_locations)
  then have "us = [Str ''SiteX'', Str ''Depot'']"
    by (simp add: unique_def)
  with l show ?thesis by simp
qed

section \<open>Rounding to binary64\<close>

lemma bitlen_pos: "0 < n \<Longrightarrow> 1 \<le> bitlen n"
  by (auto simp: bitlen_alt_def)

lemma two_powi_nat: "0 \<le> k \<Longrightarrow> (2::rat) powi k = 2 ^ nat k"
  by (simp add: power_int_def)

lemma two_powi_neg: "0 \<le> k \<Longrightarrow> (2::rat) powi (- k) = 1 / 2 ^ nat k"
  by (cases "k = 0") (simp_all add: power_int_def field_simps)

lemma ilog2_bounds:
  assumes "0 < x"
  shows "2 powi ilog2 x \<le> x" and "x < 2 powi (ilog2 x + 1)"
proof -
  have "2 powi ilog2 x \<le> x \<and> x < 2 powi (ilog2 x + 1)"
  proof (cases "1 \<le> x")
    case True
    define n where "n = \<lfloor>x\<rfloor>"
    from True have n: "0 < n" by (simp add: n_def)
    define b where "b = bitlen n"
    from n have b: "1 \<le> b" unfolding b_def by (rule bitlen_pos)
    from bitlen_bounds [OF n] have lo: "2 ^ nat (b - 1) \<le> n" and hi: "n < 2 ^ nat b"
      by (simp_all add: b_def)
    have e: "ilog2 x = b - 1" using True by (simp add: ilog2_def n_def b_def)
    have "(2::rat) powi (b - 1) = of_int (2 ^ nat (b - 1))"
      using b by (simp add: two_powi_nat)
    also have "\<dots> \<le> of_int n" using lo by (simp only: of_int_le_iff)
    also have "\<dots> \<le> x" by (simp add: n_def)
    finally have 1: "2 powi (b - 1) \<le> x" .
    have "x < of_int (n + 1)" unfolding n_def by linarith
    also from hi have "n + 1 \<le> 2 ^ nat b" by simp
    then have "(of_int (n + 1) :: rat) \<le> of_int (2 ^ nat b)" by (simp only: of_int_le_iff)
    also have "\<dots> = 2 powi b" using b by (simp add: two_powi_nat)
    finally have 2: "x < 2 powi b" .
    from 1 2 e show ?thesis by simp
  next
    case False
    define y where "y = 1 / x"
    from assms False have y: "1 < y" by (simp add: y_def)
    define m where "m = \<lceil>y\<rceil> - 1"
    from y have m: "0 < m" unfolding m_def by linarith
    have my: "of_int m < y" "y \<le> of_int m + 1" unfolding m_def by linarith+
    define b where "b = bitlen m"
    from m have b: "1 \<le> b" unfolding b_def by (rule bitlen_pos)
    from bitlen_bounds [OF m] have lo: "2 ^ nat (b - 1) \<le> m" and hi: "m < 2 ^ nat b"
      by (simp_all add: b_def)
    have e: "ilog2 x = - b" using False by (simp add: ilog2_def y_def m_def b_def)
    from hi have "m + 1 \<le> 2 ^ nat b" by simp
    then have "(of_int (m + 1) :: rat) \<le> of_int (2 ^ nat b)" by (simp only: of_int_le_iff)
    with my(2) have "y \<le> 2 ^ nat b" by simp
    with assms have "1 / 2 ^ nat b \<le> x"
      by (simp add: y_def field_simps)
    then have 1: "2 powi (- b) \<le> x" using b by (simp add: two_powi_neg)
    from lo have "(of_int (2 ^ nat (b - 1)) :: rat) \<le> of_int m" by (simp only: of_int_le_iff)
    then have "(2::rat) ^ nat (b - 1) \<le> of_int m" by simp
    with my(1) have "2 ^ nat (b - 1) < y" by linarith
    with assms have "x < 1 / 2 ^ nat (b - 1)"
      by (simp add: y_def field_simps)
    moreover have "(2::rat) powi (- b + 1) = 1 / 2 ^ nat (b - 1)"
      using two_powi_neg [of "b - 1"] b by simp
    ultimately have 2: "x < 2 powi (- b + 1)" by simp
    from 1 2 e show ?thesis by simp
  qed
  then show "2 powi ilog2 x \<le> x" and "x < 2 powi (ilog2 x + 1)" by simp_all
qed

lemma round_half_even_near: "\<bar>of_int (round_half_even y) - y\<bar> \<le> 1 / 2"
proof -
  have "of_int \<lfloor>y\<rfloor> \<le> y" and "y < of_int \<lfloor>y\<rfloor> + 1"
    by linarith+
  then show ?thesis
    by (auto simp: round_half_even_def Let_def)
qed

lemma round_half_even_nonneg: "0 \<le> y \<Longrightarrow> 0 \<le> round_half_even y"
  by (auto simp: round_half_even_def Let_def)

lemma round_half_even_tie:
  assumes "\<bar>of_int (round_half_even y) - y\<bar> = 1 / 2"
  shows "even (round_half_even y)"
proof -
  have fl: "of_int \<lfloor>y\<rfloor> \<le> y" "y < of_int \<lfloor>y\<rfloor> + 1"
    by linarith+
  show ?thesis
  proof (cases "y - of_int \<lfloor>y\<rfloor> = 1 / 2")
    case True
    then show ?thesis by (auto simp: round_half_even_def Let_def)
  next
    case False
    with assms fl show ?thesis
      by (auto simp: round_half_even_def Let_def split: if_splits)
  qed
qed

lemma round_half_even_le:
  assumes "y < of_int k + 1 / 2"
  shows "round_half_even y \<le> k"
proof -
  from round_half_even_near [of y] assms
  have "(of_int (round_half_even y) :: rat) < of_int k + 1" by linarith
  then have "(of_int (round_half_even y) :: rat) < of_int (k + 1)" by simp
  then have "round_half_even y < k + 1" by (simp only: of_int_less_iff)
  then show ?thesis by simp
qed

lemma fl_pos:
  assumes "0 < x"
  shows "fl x =
    (let q = 2 powi (max (ilog2 x) (- 1022) - 52); n = round_half_even (x / q)
     in if 2 ^ 1024 \<le> of_int n * q then PosInf else Fin (of_int n * q))"
proof -
  let ?q = "(2::rat) powi (max (ilog2 x) (- 1022) - 52)"
  have q: "0 < ?q" by simp
  with assms have "0 \<le> round_half_even (x / ?q)"
    by (intro round_half_even_nonneg) simp
  with q have "\<bar>of_int (round_half_even (x / ?q)) * ?q\<bar> = of_int (round_half_even (x / ?q)) * ?q"
    by simp
  with assms show ?thesis
    by (simp add: fl_def Let_def)
qed

lemma fl_nonneg:
  assumes "0 \<le> x" and "fl x = Fin y"
  shows "0 \<le> y"
proof (cases "x = 0")
  case True
  with assms(2) show ?thesis by (simp add: fl_def)
next
  case False
  with assms(1) have x: "0 < x" by simp
  let ?q = "(2::rat) powi (max (ilog2 x) (- 1022) - 52)"
  have q: "0 < ?q" by simp
  with x have "0 \<le> round_half_even (x / ?q)"
    by (intro round_half_even_nonneg) simp
  with q have "0 \<le> of_int (round_half_even (x / ?q)) * ?q" by simp
  with assms(2) show ?thesis
    by (auto simp: fl_pos [OF x] Let_def split: if_splits)
qed

lemma fl_near:
  assumes "0 < x" and "fl x = Fin y"
  shows "\<bar>y - x\<bar> \<le> max (x / 2 ^ 53) (1 / 2 ^ 1075)"
proof -
  define e where "e = max (ilog2 x) (- 1022)"
  define q :: rat where "q = 2 powi (e - 52)"
  define n where "n = round_half_even (x / q)"
  have q: "0 < q" by (simp add: q_def)
  from assms have y: "y = of_int n * q"
    by (auto simp: fl_pos Let_def e_def q_def n_def split: if_splits)
  from round_half_even_near [of "x / q"] have "\<bar>of_int n - x / q\<bar> \<le> 1 / 2"
    by (simp add: n_def)
  then have "\<bar>of_int n - x / q\<bar> * q \<le> 1 / 2 * q"
    using q by (intro mult_right_mono) simp_all
  moreover have "(of_int n - x / q) * q = of_int n * q - x"
    using q by (simp add: field_simps)
  then have "\<bar>of_int n - x / q\<bar> * q = \<bar>of_int n * q - x\<bar>"
    using q by (metis abs_mult abs_of_pos)
  ultimately have near: "\<bar>y - x\<bar> \<le> q / 2" by (simp add: y)
  have "q / 2 \<le> max (x / 2 ^ 53) (1 / 2 ^ 1075)"
  proof (cases "- 1022 \<le> ilog2 x")
    case True
    then have "q = 2 powi ilog2 x / 2 ^ 52"
      by (simp add: q_def e_def power_int_diff)
    with ilog2_bounds(1) [OF assms(1)] have "q \<le> x / 2 ^ 52"
      by (simp add: divide_right_mono)
    then have "q / 2 \<le> x / 2 ^ 53" by simp
    then show ?thesis by simp
  next
    case False
    then have "q = 2 powi (- 1074)" by (simp add: q_def e_def)
    then have "q / 2 = 1 / 2 ^ 1075" by (simp add: power_int_minus field_simps)
    then show ?thesis by simp
  qed
  with near show ?thesis by linarith
qed

text \<open>
  What \<open>fl\<close> returns at a positive number, said without its auxiliary functions: the
  multiple of the spacing of its binade (of the smallest spacing below the normal range)
  that is nearest, the even multiple of two equally near.
\<close>

lemma fl_spec:
  assumes "0 < x" and "fl x = Fin y"
  shows "\<exists>e n. - 1022 \<le> e \<and> (2 powi e \<le> x \<or> e = - 1022) \<and> x < 2 powi (e + 1)
    \<and> y = of_int n * 2 powi (e - 52)
    \<and> \<bar>of_int n - x / 2 powi (e - 52)\<bar> \<le> 1 / 2
    \<and> (\<bar>of_int n - x / 2 powi (e - 52)\<bar> = 1 / 2 \<longrightarrow> even n)"
proof -
  define e where "e = max (ilog2 x) (- 1022)"
  define n where "n = round_half_even (x / 2 powi (e - 52))"
  from assms have y: "y = of_int n * 2 powi (e - 52)"
    by (auto simp: fl_pos Let_def e_def n_def split: if_splits)
  have lo: "2 powi e \<le> x \<or> e = - 1022"
    using ilog2_bounds(1) [OF assms(1)] by (auto simp: e_def max_def)
  have "x < 2 powi (ilog2 x + 1)" using assms(1) by (rule ilog2_bounds)
  also have "\<dots> \<le> 2 powi (e + 1)"
    by (intro power_int_increasing) (simp_all add: e_def)
  finally have hi: "x < 2 powi (e + 1)" .
  have near: "\<bar>of_int n - x / 2 powi (e - 52)\<bar> \<le> 1 / 2"
    unfolding n_def by (rule round_half_even_near)
  have tie: "\<bar>of_int n - x / 2 powi (e - 52)\<bar> = 1 / 2 \<longrightarrow> even n"
    unfolding n_def using round_half_even_tie by blast
  have "- 1022 \<le> e" by (simp add: e_def)
  with lo hi y near tie show ?thesis by blast
qed

lemma ilog2_less:
  assumes "0 < x" and "x < 2 powi k"
  shows "ilog2 x < k"
proof (rule ccontr)
  assume "\<not> ilog2 x < k"
  then have "(2::rat) powi k \<le> 2 powi ilog2 x"
    by (intro power_int_increasing) simp_all
  with ilog2_bounds(1) [OF assms(1)] assms(2) show False by linarith
qed

lemma fl_finite:
  assumes "0 < x" and "x < 2 ^ 1024 - 2 ^ 970"
  shows "\<exists>y. fl x = Fin y"
proof -
  define e where "e = max (ilog2 x) (- 1022)"
  define q :: rat where "q = 2 powi (e - 52)"
  define n where "n = round_half_even (x / q)"
  have q: "0 < q" by (simp add: q_def)
  from assms(2) have "x < 2 powi 1024" by simp
  with assms(1) have "ilog2 x < 1024" by (rule ilog2_less)
  then have e: "e \<le> 1023" by (simp add: e_def)
  have "of_int n * q < 2 ^ 1024"
  proof (cases "e = 1023")
    case True
    then have q971: "q = 2 ^ 971" by (simp add: q_def)
    have split: "(2::rat) ^ 1024 = 2 ^ 53 * 2 ^ 971" "(2::rat) ^ 971 = 2 * 2 ^ 970"
      by (simp_all add: power_add [symmetric] power_Suc [symmetric] del: power_Suc)
    from assms(2) have "x / q < 2 ^ 53 - 1 / 2"
      unfolding q971 split(1) by (simp add: field_simps split(2))
    then have "x / q < of_int (2 ^ 53 - 1) + 1 / 2" by simp
    then have "n \<le> 2 ^ 53 - 1" unfolding n_def by (rule round_half_even_le)
    then have "(of_int n :: rat) \<le> of_int (2 ^ 53 - 1)" by (simp only: of_int_le_iff)
    then have "of_int n * q \<le> (2 ^ 53 - 1) * q" using q by (simp add: mult_right_mono)
    also have "\<dots> < 2 ^ 1024" unfolding q971 split(1) by simp
    finally show ?thesis .
  next
    case False
    with e have e': "e \<le> 1022" by simp
    have "x < 2 powi (ilog2 x + 1)" using assms(1) by (rule ilog2_bounds)
    also have "\<dots> \<le> 2 powi (e + 1)"
      by (intro power_int_increasing) (simp_all add: e_def)
    finally have "x < 2 powi (e + 1)" .
    moreover have "(2::rat) powi (e + 1) = 2 ^ 53 * q"
      by (simp add: q_def power_int_diff power_int_add)
    ultimately have "x / q < 2 ^ 53" using q by (simp add: field_simps)
    then have "x / q < 2 ^ 53" .
    moreover have "(of_int (2 ^ 53) :: rat) = 2 ^ 53" by simp
    ultimately have "x / q < of_int (2 ^ 53) + 1 / 2" by linarith
    then have "n \<le> 2 ^ 53" unfolding n_def by (rule round_half_even_le)
    then have "(of_int n :: rat) \<le> of_int (2 ^ 53)" by (simp only: of_int_le_iff)
    then have "of_int n * q \<le> 2 ^ 53 * q" using q by (simp add: mult_right_mono)
    also have "\<dots> = 2 powi (e + 1)"
      by (simp add: q_def power_int_diff power_int_add)
    also have "\<dots> \<le> 2 powi 1023"
      using e' by (intro power_int_increasing) simp_all
    also have "\<dots> < 2 ^ 1024" by simp
    finally show ?thesis .
  qed
  then show ?thesis
    using assms(1) by (simp add: fl_pos Let_def e_def q_def n_def)
qed

section \<open>Numerals\<close>

lemma dec_digit: "d < 10 \<Longrightarrow> dec d = [digit d]"
  by (simp add: dec.simps)

lemma dec_step: "\<not> n < 10 \<Longrightarrow> dec n = dec (n div 10) @ [digit (n mod 10)]"
  by (subst dec.simps) simp

lemma digit_cases:
  assumes "d < 10"
  shows "digit_value (digit d) = d" and "digit d \<in> set ''0123456789''"
    and "digit d = CHR ''0'' \<longleftrightarrow> d = 0"
proof -
  from assms have "d \<in> {0, 1, 2, 3, 4, 5, 6, 7, 8, 9}" by auto
  then show "digit_value (digit d) = d" and "digit d \<in> set ''0123456789''"
    and "digit d = CHR ''0'' \<longleftrightarrow> d = 0"
    by (auto simp: digit_def digit_value_def)
qed

lemma decimal_value_snoc: "decimal_value (s @ [c]) = 10 * decimal_value s + digit_value c"
  by (simp add: decimal_value_def)

lemma dec_nonempty: "dec n \<noteq> []"
  by (subst dec.simps) simp

lemma decimal_value_dec: "decimal_value (dec n) = n"
proof (induction n rule: dec.induct)
  case (1 n)
  show ?case
  proof (cases "n < 10")
    case True
    then show ?thesis
      by (simp add: dec_digit decimal_value_def digit_cases(1))
  next
    case False
    moreover from False have "decimal_value (dec (n div 10)) = n div 10"
      by (rule "1.IH")
    ultimately show ?thesis
      by (simp add: dec_step decimal_value_snoc digit_cases(1))
  qed
qed

lemma dec_digits: "set (dec n) \<subseteq> set ''0123456789''"
proof (induction n rule: dec.induct)
  case (1 n)
  show ?case
  proof (cases "n < 10")
    case True
    then show ?thesis using digit_cases(2) [of n] by (simp add: dec_digit)
  next
    case False
    moreover from False have "set (dec (n div 10)) \<subseteq> set ''0123456789''"
      by (rule "1.IH")
    moreover have "digit (n mod 10) \<in> set ''0123456789''"
      by (rule digit_cases(2)) simp
    ultimately show ?thesis
      by (simp add: dec_step)
  qed
qed

lemma dec_leading: "hd (dec n) = CHR ''0'' \<Longrightarrow> dec n = ''0''"
proof (induction n rule: dec.induct)
  case (1 n)
  show ?case
  proof (cases "n < 10")
    case True
    with "1.prems" show ?thesis
      using digit_cases(3) [of n] by (simp add: dec_digit digit_def)
  next
    case False
    with "1.prems" have "hd (dec (n div 10)) = CHR ''0''"
      by (simp add: dec_step dec_nonempty)
    with False have "dec (n div 10) = ''0''" by (rule "1.IH")
    then have "decimal_value (dec (n div 10)) = 0"
      by (simp add: decimal_value_def digit_value_def)
    then have "n div 10 = 0" by (simp add: decimal_value_dec)
    with False show ?thesis by simp
  qed
qed

lemma numeral_of_dec: "numeral_of (dec n) n"
  using dec_leading [of n] dec_digits [of n]
  by (simp add: numeral_of_def dec_nonempty decimal_value_dec)

lemma numeral_of_digit:
  assumes "d < 10"
  shows "numeral_of [digit d] d"
proof -
  from assms have "dec d = [digit d]" by (rule dec_digit)
  with numeral_of_dec [of d] show ?thesis by simp
qed

lemma format_fixed_one:
  assumes "0 \<le> y"
  shows "\<exists>m d. d < 10 \<and> format_fixed 1 y = dec m @ ''.'' @ [digit d]
    \<and> \<bar>of_nat m + of_nat d / 10 - y\<bar> \<le> 1 / 20
    \<and> (\<bar>of_nat m + of_nat d / 10 - y\<bar> = 1 / 20 \<longrightarrow> even d)"
proof -
  define k where "k = round_half_even (y * 10)"
  define n where "n = nat k"
  from assms have k: "0 \<le> k"
    unfolding k_def by (intro round_half_even_nonneg) simp
  then have nk: "(of_nat n :: rat) = of_int k" by (simp add: n_def)
  have "n = 10 * (n div 10) + n mod 10" by simp
  then have "(of_nat n :: rat) = 10 * of_nat (n div 10) + of_nat (n mod 10)"
    by (metis of_nat_add of_nat_mult of_nat_numeral)
  then have split: "of_nat (n div 10) + of_nat (n mod 10) / 10 - y = (of_int k - y * 10) / 10"
    by (simp add: nk [symmetric] field_simps)
  from round_half_even_near [of "y * 10"]
  have near: "\<bar>of_nat (n div 10) + of_nat (n mod 10) / 10 - y\<bar> \<le> 1 / 20"
    unfolding split k_def by simp
  have tie: "even (n mod 10)"
    if "\<bar>of_nat (n div 10) + of_nat (n mod 10) / 10 - y\<bar> = 1 / 20"
  proof -
    from that have "\<bar>of_int k - y * 10\<bar> = 1 / 2"
      unfolding split by simp
    then have "even k" unfolding k_def by (rule round_half_even_tie)
    with k have "even n" by (simp add: n_def even_nat_iff)
    then show ?thesis by presburger
  qed
  have "zfill 1 (dec (n mod 10)) = [digit (n mod 10)]"
    by (simp add: zfill_def dec_digit)
  with assms have "format_fixed 1 y = dec (n div 10) @ ''.'' @ [digit (n mod 10)]"
    by (simp add: format_fixed_def Let_def abs_of_nonneg n_def k_def)
  moreover have "n mod 10 < 10" by simp
  ultimately show ?thesis using near tie by blast
qed

section \<open>The texts and classes of the cards\<close>

lemma delta_text:
  assumes "\<not> x \<le> - 60" and "x \<le> max_double"
  shows "\<exists>y e n m d ip dc. fsub (Fin x) (- 60) = Fin y \<and> 0 \<le> y
    \<and> - 1022 \<le> e \<and> (2 powi e \<le> x - (- 60) \<or> e = - 1022) \<and> x - (- 60) < 2 powi (e + 1)
    \<and> y = of_int n * 2 powi (e - 52)
    \<and> \<bar>of_int n - (x - (- 60)) / 2 powi (e - 52)\<bar> \<le> 1 / 2
    \<and> (\<bar>of_int n - (x - (- 60)) / 2 powi (e - 52)\<bar> = 1 / 2 \<longrightarrow> even n)
    \<and> \<bar>y - (x - (- 60))\<bar> \<le> max ((x - (- 60)) / 2 ^ 53) (1 / 2 ^ 1075)
    \<and> delta_of (kpi1_args (Fin x)) = ''Too Warm (+'' @ ip @ ''.'' @ [dc] @ degree @ ''C)''
    \<and> numeral_of ip m \<and> numeral_of [dc] d
    \<and> \<bar>of_nat m + of_nat d / 10 - y\<bar> \<le> 1 / 20
    \<and> (\<bar>of_nat m + of_nat d / 10 - y\<bar> = 1 / 20 \<longrightarrow> even d)"
proof -
  define z where "z = x - (- 60)"
  from assms(1) have z: "0 < z" by (simp add: z_def)
  have "(2::rat) ^ 971 = 2 * 2 ^ 970"
    by (simp add: power_Suc [symmetric] del: power_Suc)
  moreover have "(60::rat) < 2 ^ 970" by simp
  ultimately have "z < 2 ^ 1024 - 2 ^ 970"
    using assms(2) unfolding z_def max_double_def by linarith
  with z obtain y where y: "fl z = Fin y" using fl_finite by blast
  from z y have y0: "0 \<le> y" using fl_nonneg [of z y] by simp
  from z y have near: "\<bar>y - z\<bar> \<le> max (z / 2 ^ 53) (1 / 2 ^ 1075)" by (rule fl_near)
  from fl_spec [OF z y] obtain e n
    where spec: "- 1022 \<le> e" "2 powi e \<le> z \<or> e = - 1022" "z < 2 powi (e + 1)"
      "y = of_int n * 2 powi (e - 52)"
      "\<bar>of_int n - z / 2 powi (e - 52)\<bar> \<le> 1 / 2"
      "\<bar>of_int n - z / 2 powi (e - 52)\<bar> = 1 / 2 \<longrightarrow> even n"
    by blast
  from format_fixed_one [OF y0] obtain m d
    where d: "d < 10" and shown: "format_fixed 1 y = dec m @ ''.'' @ [digit d]"
      and close: "\<bar>of_nat m + of_nat d / 10 - y\<bar> \<le> 1 / 20"
      and tie: "\<bar>of_nat m + of_nat d / 10 - y\<bar> = 1 / 20 \<longrightarrow> even d"
    by blast
  have sub: "fsub (Fin x) (- 60) = Fin y" using y by (simp add: z_def)
  have "delta_of (kpi1_args (Fin x)) = ''Too Warm (+'' @ format_f 1 (fsub (Fin x) (- 60)) @ degree @ ''C)''"
    using assms(1) by (simp add: kpi1_args_def delta_of_def)
  then have delta: "delta_of (kpi1_args (Fin x))
      = ''Too Warm (+'' @ dec m @ ''.'' @ [digit d] @ degree @ ''C)''"
    by (simp only: sub format_f.simps shown append_assoc)
  have "fsub (Fin x) (- 60) = Fin y \<and> 0 \<le> y
    \<and> - 1022 \<le> e \<and> (2 powi e \<le> x - (- 60) \<or> e = - 1022) \<and> x - (- 60) < 2 powi (e + 1)
    \<and> y = of_int n * 2 powi (e - 52)
    \<and> \<bar>of_int n - (x - (- 60)) / 2 powi (e - 52)\<bar> \<le> 1 / 2
    \<and> (\<bar>of_int n - (x - (- 60)) / 2 powi (e - 52)\<bar> = 1 / 2 \<longrightarrow> even n)
    \<and> \<bar>y - (x - (- 60))\<bar> \<le> max ((x - (- 60)) / 2 ^ 53) (1 / 2 ^ 1075)
    \<and> delta_of (kpi1_args (Fin x)) = ''Too Warm (+'' @ dec m @ ''.'' @ [digit d] @ degree @ ''C)''
    \<and> numeral_of (dec m) m \<and> numeral_of [digit d] d
    \<and> \<bar>of_nat m + of_nat d / 10 - y\<bar> \<le> 1 / 20
    \<and> (\<bar>of_nat m + of_nat d / 10 - y\<bar> = 1 / 20 \<longrightarrow> even d)"
    using sub y0 spec near delta numeral_of_dec [of m] numeral_of_digit [OF d] close tie
    unfolding z_def by - (intro conjI; assumption)
  then show ?thesis by (intro exI)
qed

text \<open>
  C2, as the code has it. The average card is "safe" when the average is at most -60
  (-60 included) and "danger" otherwise, NaN and plus infinity included. In danger, for
  a finite average up to the largest binary64 number, the difference to -60 is taken in
  binary64 arithmetic: it is a finite \<open>y \<ge> 0\<close>, the multiple \<open>n * 2 ^ (e - 52)\<close> of the
  spacing of the binade \<open>e\<close> of the exact difference that is nearest to it (\<open>n\<close> even in a
  tie), hence within the rounding error of the exact difference; the delta text is "Too Warm (+", the numeral of a natural number \<open>m\<close>, a
  point, one digit \<open>d\<close>, the degree sign and "C)", where \<open>m + d / 10\<close> is within half a
  tenth of \<open>y\<close> and \<open>d\<close> is even when it is exactly half a tenth away. The maximum
  card is "safe" when the maximum is at most -60 and "danger" otherwise. The breach card
  is "safe" when the count is 0 and "danger" otherwise, and in danger its value is the
  decimal numeral of the count.
\<close>

theorem kpi_classification:
  "status_of (kpi1_args (Fin x)) = (if x \<le> - 60 then ''safe'' else ''danger'')
   \<and> status_of (kpi1_args NegInf) = ''safe''
   \<and> status_of (kpi1_args PosInf) = ''danger''
   \<and> status_of (kpi1_args NaN) = ''danger''
   \<and> (\<not> x \<le> - 60 \<and> x \<le> max_double \<longrightarrow>
        (\<exists>y e n m d ip dc. fsub (Fin x) (- 60) = Fin y \<and> 0 \<le> y
           \<and> - 1022 \<le> e \<and> (2 powi e \<le> x - (- 60) \<or> e = - 1022)
           \<and> x - (- 60) < 2 powi (e + 1)
           \<and> y = of_int n * 2 powi (e - 52)
           \<and> \<bar>of_int n - (x - (- 60)) / 2 powi (e - 52)\<bar> \<le> 1 / 2
           \<and> (\<bar>of_int n - (x - (- 60)) / 2 powi (e - 52)\<bar> = 1 / 2 \<longrightarrow> even n)
           \<and> \<bar>y - (x - (- 60))\<bar> \<le> max ((x - (- 60)) / 2 ^ 53) (1 / 2 ^ 1075)
           \<and> delta_of (kpi1_args (Fin x)) = ''Too Warm (+'' @ ip @ ''.'' @ [dc] @ degree @ ''C)''
           \<and> numeral_of ip m \<and> numeral_of [dc] d
           \<and> \<bar>of_nat m + of_nat d / 10 - y\<bar> \<le> 1 / 20
           \<and> (\<bar>of_nat m + of_nat d / 10 - y\<bar> = 1 / 20 \<longrightarrow> even d)))
   \<and> status_of (kpi2_args (Fin x')) = (if x' \<le> - 60 then ''safe'' else ''danger'')
   \<and> status_of (kpi2_args NegInf) = ''safe''
   \<and> status_of (kpi2_args PosInf) = ''danger''
   \<and> status_of (kpi2_args NaN) = ''danger''
   \<and> status_of (kpi3_args total_breaches) = (if total_breaches = 0 then ''safe'' else ''danger'')
   \<and> (total_breaches \<noteq> 0 \<longrightarrow> numeral_of (value_of (kpi3_args total_breaches)) total_breaches)"
proof (intro conjI impI)
  assume "\<not> x \<le> - 60 \<and> x \<le> max_double"
  then show "\<exists>y e n m d ip dc. fsub (Fin x) (- 60) = Fin y \<and> 0 \<le> y
      \<and> - 1022 \<le> e \<and> (2 powi e \<le> x - (- 60) \<or> e = - 1022)
      \<and> x - (- 60) < 2 powi (e + 1)
      \<and> y = of_int n * 2 powi (e - 52)
      \<and> \<bar>of_int n - (x - (- 60)) / 2 powi (e - 52)\<bar> \<le> 1 / 2
      \<and> (\<bar>of_int n - (x - (- 60)) / 2 powi (e - 52)\<bar> = 1 / 2 \<longrightarrow> even n)
      \<and> \<bar>y - (x - (- 60))\<bar> \<le> max ((x - (- 60)) / 2 ^ 53) (1 / 2 ^ 1075)
      \<and> delta_of (kpi1_args (Fin x)) = ''Too Warm (+'' @ ip @ ''.'' @ [dc] @ degree @ ''C)''
      \<and> numeral_of ip m \<and> numeral_of [dc] d
      \<and> \<bar>of_nat m + of_nat d / 10 - y\<bar> \<le> 1 / 20
      \<and> (\<bar>of_nat m + of_nat d / 10 - y\<bar> = 1 / 20 \<longrightarrow> even d)"
    by (intro delta_text) simp_all
next
  assume "total_breaches \<noteq> 0"
  then show "numeral_of (value_of (kpi3_args total_breaches)) total_breaches"
    by (simp add: kpi3_args_def value_of_def numeral_of_dec)
qed (simp_all add: kpi1_args_def kpi2_args_def kpi3_args_def status_of_def)

lemma warm_text: "delta_of (kpi1_args (Fin warm)) = ''Too Warm (+32.0'' @ degree @ ''C)''"
  by code_simp

lemma count_text: "value_of (kpi3_args 12) = ''12''"
  by code_simp

theorem kpi_classification_witness:
  "status_of (kpi1_args (Fin warm)) = ''danger''
   \<and> delta_of (kpi1_args (Fin warm)) = ''Too Warm (+32.0'' @ degree @ ''C)''
   \<and> (\<exists>y. fsub (Fin warm) (- 60) = Fin y \<and> \<bar>32 - y\<bar> \<le> 1 / 20)
   \<and> status_of (kpi2_args (Fin (- 60))) = ''safe''
   \<and> status_of (kpi3_args 12) = ''danger''
   \<and> value_of (kpi3_args 12) = ''12''
   \<and> numeral_of ''12'' 12"
proof -
  have h: "\<not> warm \<le> - 60 \<and> warm \<le> max_double"
    by (simp add: warm_def max_double_def)
  note k = kpi_classification [of warm "- 60" 12]
  note imp = k [THEN conjunct2, THEN conjunct2, THEN conjunct2, THEN conjunct2, THEN conjunct1]
  from imp [rule_format, OF h] obtain y e n m d ip dc
    where y: "fsub (Fin warm) (- 60) = Fin y"
      and t: "delta_of (kpi1_args (Fin warm)) = ''Too Warm (+'' @ ip @ ''.'' @ [dc] @ degree @ ''C)''"
      and n: "numeral_of ip m" "numeral_of [dc] d"
      and c: "\<bar>of_nat m + of_nat d / 10 - y\<bar> \<le> 1 / 20"
    by (elim exE conjE)
  from t have "ip = ''32''" and "dc = CHR ''0''"
    unfolding warm_text by (simp_all add: degree_def append_eq_Cons_conv)
  with n have "m = 32" and "d = 0"
    by (simp_all add: numeral_of_def decimal_value_def digit_value_def)
  with c have "\<bar>32 - y\<bar> \<le> 1 / 20" by simp
  moreover from k have "status_of (kpi1_args (Fin warm)) = ''danger''"
    and "status_of (kpi2_args (Fin (- 60))) = ''safe''"
    and "status_of (kpi3_args 12) = ''danger''"
    and "numeral_of (value_of (kpi3_args 12)) 12"
    using h by simp_all
  ultimately show ?thesis
    using y warm_text count_text by auto
qed

text \<open>
  At the binary64 number read for -27.95 the card is in danger and its delta text shows
  32.0. The exact difference to -60 is more than half a tenth above 32.0, and less than
  half a tenth from 32.1: the text is the one-decimal numeral of the binary64
  difference, not of the exact one. For an average that is NaN the text shows no number.
\<close>

theorem delta_not_exact_counterexample:
  "\<not> warm \<le> - 60
   \<and> delta_of (kpi1_args (Fin warm)) = ''Too Warm (+32.0'' @ degree @ ''C)''
   \<and> 1 / 20 < \<bar>32 - (warm - (- 60))\<bar>
   \<and> \<bar>321 / 10 - (warm - (- 60))\<bar> < 1 / 20
   \<and> status_of (kpi1_args NaN) = ''danger''
   \<and> delta_of (kpi1_args NaN) = ''Too Warm (+nan'' @ degree @ ''C)''"
proof -
  have "\<not> warm \<le> - 60" and "1 / 20 < \<bar>32 - (warm - (- 60))\<bar>"
    and "\<bar>321 / 10 - (warm - (- 60))\<bar> < 1 / 20"
    by (simp_all add: warm_def)
  moreover have "status_of (kpi1_args NaN) = ''danger''"
    and "delta_of (kpi1_args NaN) = ''Too Warm (+nan'' @ degree @ ''C)''"
    by (simp_all add: kpi1_args_def status_of_def delta_of_def)
  ultimately show ?thesis using warm_text by simp
qed

section \<open>The figures\<close>










section \<open>A selection that is not in the table\<close>

lemma buttons_ok:
  assumes "\<forall>c\<in>set locs. \<exists>s. c = Str s"
    and "distinct locs"
    and "\<forall>k\<in>set keys. Str k \<notin> set locs"
  shows "\<exists>bs. buttons locs sel keys = Inr bs"
  using assms
proof (induction locs arbitrary: keys)
  case Nil
  then show ?case by simp
next
  case (Cons c locs)
  from Cons.prems(1) obtain s where c: "c = Str s" by auto
  from Cons.prems(3) c have fresh: "s \<notin> set keys" by auto
  have "\<exists>bs. buttons locs sel (s # keys) = Inr bs"
  proof (rule Cons.IH)
    show "\<forall>c\<in>set locs. \<exists>s. c = Str s" using Cons.prems(1) by simp
    show "distinct locs" using Cons.prems(2) by simp
    show "\<forall>k\<in>set (s # keys). Str k \<notin> set locs"
      using Cons.prems(2,3) c by auto
  qed
  with c fresh show ?case by auto
qed

lemma sections_empty:
  assumes "rows f = []"
  shows "map_section ext f = Inr (Warning ''No location data available.'')"
    and "line_section ext f = Inr (Warning ''No data.'')"
    and "bar_section ext f = Inr (Warning ''No data.'')"
    and "table_section ext f = Inr (Warning ''No data to display.'')"
    and "compute_kpis ext f = Inr (Fin 0, Fin 0, 0)"
  using assms
  by (simp_all add: map_section_def line_section_def bar_section_def table_section_def
      compute_kpis_def empty_df_def)

text \<open>
  C4, as the code has it. For a table with a Location_Name column whose values are
  strings other than "All Locations", and a selection \<open>L\<close> other than "All Locations"
  that does not occur in that column, whatever the libraries do: the run ends without
  an exception, the filtered table has no row, the map, the two charts and the grid are
  each the warning of their section, the three figures are (0, 0, 0), the cards are
  those of these figures, the two temperature cards with status "danger" and the breach
  card with status "safe".
\<close>

theorem render_absent_location:
  assumes "getitem t ''Location_Name'' = Inr col"
    and "\<forall>c\<in>set col. \<exists>s. c = Str s"
    and "Str ''All Locations'' \<notin> set col"
    and "L \<notin> set col"
    and "L \<noteq> Str ''All Locations''"
  shows "\<exists>p. render ext t L = Inr p \<and> rows (page_filtered p) = []
    \<and> page_map p = Warning ''No location data available.''
    \<and> page_line p = Warning ''No data.''
    \<and> page_bar p = Warning ''No data.''
    \<and> page_table p = Warning ''No data to display.''
    \<and> page_kpis p = (Fin 0, Fin 0, 0)
    \<and> page_cards p = [html (kpi1_args (Fin 0)), html (kpi2_args (Fin 0)), html (kpi3_args 0)]
    \<and> status_of (kpi1_args (Fin 0)) = ''danger'' \<and> status_of (kpi2_args (Fin 0)) = ''danger''
    \<and> status_of (kpi3_args 0) = ''safe''"
proof -
  from assms(1) obtain i where i: "column_index ''Location_Name'' (columns t) = Some i"
    and col: "col = map (\<lambda>r. r ! i) (rows t)"
    by (auto simp: getitem_def split: option.splits)
  let ?f = "t\<lparr>rows := filter (\<lambda>r. py_eq (r ! i) L) (rows t)\<rparr>"
  have f: "df_filtered t L = Inr ?f"
    using i assms(5) by (rule df_filtered_rows)
  from assms(4) have "\<forall>r\<in>set (rows t). \<not> py_eq (r ! i) L"
    unfolding col by (auto simp: py_eq_def)
  then have none: "rows ?f = []"
    by (simp add: filter_empty_conv)
  have locs: "location_list t = Inr (Str ''All Locations'' # unique col)"
    using assms(1) by (simp add: location_list_def)
  have "\<exists>bs. buttons (Str ''All Locations'' # unique col) L [] = Inr bs"
    using assms(2,3) by (intro buttons_ok) (simp_all add: set_unique distinct_unique)
  then obtain bs where bs: "buttons (Str ''All Locations'' # unique col) L [] = Inr bs" ..
  let ?p = "\<lparr>page_buttons = bs, page_filtered = ?f,
      page_map = Warning ''No location data available.'',
      page_kpis = (Fin 0, Fin 0, 0),
      page_cards = [html (kpi1_args (Fin 0)), html (kpi2_args (Fin 0)), html (kpi3_args 0)],
      page_line = Warning ''No data.'', page_bar = Warning ''No data.'',
      page_table = Warning ''No data to display.''\<rparr>"
  have "render ext t L = Inr ?p"
    by (simp add: render_def locs bs f sections_empty [OF none] del: buttons.simps)
  moreover have "status_of (kpi1_args (Fin 0)) = ''danger''"
    "status_of (kpi2_args (Fin 0)) = ''danger''" "status_of (kpi3_args 0) = ''safe''"
    by (simp_all add: kpi1_args_def kpi2_args_def kpi3_args_def status_of_def)
  ultimately show ?thesis
    using none by (intro exI [of _ ?p]) simp
qed

theorem render_absent_location_witness:
  "\<exists>p. render sample_ext route (Str ''Harbour'') = Inr p \<and> rows (page_filtered p) = []
     \<and> page_map p = Warning ''No location data available.''
     \<and> page_table p = Warning ''No data to display.'' \<and> page_kpis p = (Fin 0, Fin 0, 0)"
proof -
  let ?col = "[Str ''SiteX'', Str ''Depot'', Str ''SiteX'']"
  have "\<forall>c\<in>set ?col. \<exists>s. c = Str s" and "Str ''All Locations'' \<notin> set ?col"
    and "Str ''Harbour'' \<notin> set ?col" and "Str ''Harbour'' \<noteq> Str ''All Locations''"
    by simp_all
  from render_absent_location [OF route_locations this] show ?thesis
    by blast
qed

text \<open>
  The selection "All Locations" does not occur in the Location_Name column of the
  sample table, and the filtered table is the whole table, of three rows; the map
  section draws the map. And on a table in which a stage is named "All Locations" the
  run ends at the second button, with the duplicate key, for a selection that is not in
  the table.
\<close>

lemma all_named_render:
  "render sample_ext all_named (Str ''Harbour'') = Inl (DuplicateElementKey ''All Locations'')"
  by (simp add: render_def location_list_def getitem_def all_named_def csv_columns_def unique_def)

theorem all_locations_not_empty_counterexample:
  "getitem route ''Location_Name'' = Inr [Str ''SiteX'', Str ''Depot'', Str ''SiteX'']
   \<and> Str ''All Locations'' \<notin> set [Str ''SiteX'', Str ''Depot'', Str ''SiteX'']
   \<and> df_filtered route (Str ''All Locations'') = Inr route
   \<and> length (rows route) = 3
   \<and> map_section sample_ext route = Inr (Plot ''scatter_mapbox'' route)
   \<and> getitem all_named ''Location_Name'' = Inr [Str ''All Locations'']
   \<and> Str ''Harbour'' \<notin> set [Str ''All Locations'']
   \<and> render sample_ext all_named (Str ''Harbour'') = Inl (DuplicateElementKey ''All Locations'')"
proof -
  have "length (rows route) = 3" and "\<not> empty_df route"
    and "set [''Latitude'', ''Longitude'', ''Status'', ''Location_Name''] \<subseteq> set (columns route)"
    by (simp_all add: route_def empty_df_def csv_columns_def)
  moreover have "getitem all_named ''Location_Name'' = Inr [Str ''All Locations'']"
    by (simp add: getitem_def all_named_def csv_columns_def)
  ultimately show ?thesis
    using route_locations all_named_render
    by (simp add: df_filtered_def map_section_def sample_ext_def draw_def)
qed

end
